theory Spec2Isabelle
  imports Main
begin

section \<open>Go values shared by the two adapters\<close>

text \<open>
  A Go \<open>string\<close> is a sequence of bytes; it is modelled as \<^typ>\<open>string\<close>, whose
  characters are bytes (\<^term>\<open>of_char c\<close> is the byte value).

  A Go \<open>error\<close> is modelled by the datatype below; \<open>nil\<close> is \<^term>\<open>None\<close> of
  \<^typ>\<open>'a option\<close>. The first four constructors are the sentinel values of package
  \<open>db\<close> that the adapters return or compare with, \<open>errTooManyOpenFiles\<close> is the package
  variable of the sqlite adapter, \<open>errCloseWithoutOpen\<close> is the value
  \<open>errors.New(`Close() without Open()?`)\<close> built in the sqlite \<open>Close\<close>, and
  \<open>DriverError s\<close> is any other error value, with text \<open>s\<close> (an error of the
  database driver). \<open>PanicNilPointer\<close> stands for a run-time panic (a method call on a
  nil interface value); every caller in the two files hands a non-nil error straight
  up, which is also what the unwinding of a panic does.
\<close>

datatype error =
    ErrTooManyClients
  | ErrCollectionDoesNotExist
  | ErrMissingConnURL
  | ErrGivingUpTryingToConnect
  | errTooManyOpenFiles
  | errCloseWithoutOpen
  | PanicNilPointer
  | DriverError string

text \<open>
  The method \<open>Error()\<close>. The texts of the values declared in the two files are known;
  the texts of the sentinels of package \<open>db\<close> are declared outside the two files and
  are the parameter \<open>txt\<close>.
\<close>

fun ErrorText :: "(error \<Rightarrow> string) \<Rightarrow> error \<Rightarrow> string" where
  "ErrorText txt errTooManyOpenFiles = ''Too many open database files.''"
| "ErrorText txt errCloseWithoutOpen = ''Close() without Open()?''"
| "ErrorText txt (DriverError s) = s"
| "ErrorText txt e = txt e"

text \<open>\<open>strings.Contains(s, substr)\<close>: \<open>substr\<close> occurs in \<open>s\<close> as a run of bytes.\<close>

fun HasPrefix :: "string \<Rightarrow> string \<Rightarrow> bool" where
  "HasPrefix s [] = True"
| "HasPrefix [] (p # ps) = False"
| "HasPrefix (c # s) (p # ps) = (c = p \<and> HasPrefix s ps)"

fun Contains :: "string \<Rightarrow> string \<Rightarrow> bool" where
  "Contains [] substr = (substr = [])"
| "Contains (c # s) substr = (HasPrefix (c # s) substr \<or> Contains s substr)"

text \<open>What \<open>strings.Contains\<close> decides: \<open>sub\<close> occurs somewhere in \<open>s\<close>.\<close>

definition occurs :: "string \<Rightarrow> string \<Rightarrow> bool" where
  "occurs sub s = (\<exists>pre post. s = pre @ sub @ post)"

text \<open>\<open>strconv.Itoa\<close>: the decimal text of an integer.\<close>

fun digits :: "nat \<Rightarrow> string" where
  "digits n = (if n < 10 then [char_of (48 + n)] else digits (n div 10) @ [char_of (48 + n mod 10)])"

definition Itoa :: "int \<Rightarrow> string" where
  "Itoa i = (if i < 0 then CHR ''-'' # digits (nat (- i)) else digits (nat i))"

section \<open>Statement placeholders\<close>

text \<open>
  \<open>for i := range buf\<close> over a string visits the byte index at which each UTF-8 encoded
  code point starts; an invalid encoding is visited byte by byte. \<open>rune_len s\<close> is the
  number of bytes the loop advances over at the head of \<open>s\<close>: the length of a well
  formed encoding (first byte \<open>C2..DF\<close>, \<open>E0..EF\<close>, \<open>F0..F4\<close> with continuation bytes in
  the accepted ranges of package \<open>unicode/utf8\<close>), and 1 otherwise.
\<close>

definition in_range :: "char \<Rightarrow> nat \<Rightarrow> nat \<Rightarrow> bool" where
  "in_range c lo hi = (lo \<le> of_char c \<and> (of_char c :: nat) \<le> hi)"

definition rune_len :: "string \<Rightarrow> nat" where
  "rune_len s =
     (case s of
        [] \<Rightarrow> 0
      | c0 # r \<Rightarrow>
          (let b = (of_char c0 :: nat) in
           if b < 0xC2 then 1
           else if b < 0xE0 then
             (case r of
                c1 # _ \<Rightarrow> if in_range c1 0x80 0xBF then 2 else 1
              | _ \<Rightarrow> 1)
           else if b < 0xF0 then
             (case r of
                c1 # c2 # _ \<Rightarrow>
                  if in_range c1 (if b = 0xE0 then 0xA0 else 0x80) (if b = 0xED then 0x9F else 0xBF)
                     \<and> in_range c2 0x80 0xBF
                  then 3 else 1
              | _ \<Rightarrow> 1)
           else if b < 0xF5 then
             (case r of
                c1 # c2 # c3 # _ \<Rightarrow>
                  if in_range c1 (if b = 0xF0 then 0x90 else 0x80) (if b = 0xF4 then 0x8F else 0xBF)
                     \<and> in_range c2 0x80 0xBF \<and> in_range c3 0x80 0xBF
                  then 4 else 1
              | _ \<Rightarrow> 1)
           else 1))"

text \<open>
  \<open>string(buf[i])\<close> converts the byte \<open>buf[i]\<close>, an integer, to the UTF-8 encoding of the
  code point with that number: one byte below 128, two bytes from 128 on.
\<close>

definition string_of_byte :: "char \<Rightarrow> string" where
  "string_of_byte c =
     (let b = (of_char c :: nat) in
      if b < 128 then [c] else [char_of (192 + b div 64), char_of (128 + b mod 64)])"

lemma rune_len_pos: "0 < rune_len (c # cs)"
  by (simp add: rune_len_def Let_def split: list.splits)

text \<open>
  The loop of the postgresql \<open>CompileAndReplacePlaceholders\<close>: the first argument is
  \<open>buf[i:]\<close>, \<open>j\<close> is the counter and \<open>query\<close> the text built so far. The counter is a Go
  \<open>int\<close>; it counts bytes of \<open>buf\<close>, so it cannot overflow.
\<close>

function replace_loop :: "string \<Rightarrow> int \<Rightarrow> string \<Rightarrow> string" where
  "replace_loop [] j query = query"
| "replace_loop (c # cs) j query =
     (if c = CHR ''?''
      then replace_loop (drop (rune_len (c # cs)) (c # cs)) (j + 1) (query @ ''$'' @ Itoa j)
      else replace_loop (drop (rune_len (c # cs)) (c # cs)) j (query @ string_of_byte c))"
  by pat_completeness auto
termination
proof (relation "measure (\<lambda>(s, j, q). length s)")
  show "wf (measure (\<lambda>(s, j, q). length s))" by simp
next
  fix c :: char and cs :: string and j :: int and query :: string
  have "0 < rune_len (c # cs)" by (rule rune_len_pos)
  then show "((drop (rune_len (c # cs)) (c # cs), j + 1, query @ ''$'' @ Itoa j), c # cs, j, query)
      \<in> measure (\<lambda>(s, j, q). length s)"
    by simp
  show "((drop (rune_len (c # cs)) (c # cs), j, query @ string_of_byte c), c # cs, j, query)
      \<in> measure (\<lambda>(s, j, q). length s)"
    using \<open>0 < rune_len (c # cs)\<close> by simp
qed

text \<open>
  The statement compiler (\<open>stmt.Compile(d.Template())\<close>) is outside the two files: the
  compiled text \<open>buf\<close> is the input.
\<close>

definition postgresql_CompileAndReplacePlaceholders :: "string \<Rightarrow> string" where
  "postgresql_CompileAndReplacePlaceholders buf = replace_loop buf 1 []"

definition sqlite_CompileAndReplacePlaceholders :: "string \<Rightarrow> string" where
  "sqlite_CompileAndReplacePlaceholders buf = buf"

text \<open>
  The rewriting the specification describes: the i-th \<open>?\<close> becomes \<open>$i\<close>, every other
  byte is kept.
\<close>

fun rewrite_spec :: "string \<Rightarrow> int \<Rightarrow> string" where
  "rewrite_spec [] j = []"
| "rewrite_spec (c # cs) j =
     (if c = CHR ''?'' then ''$'' @ Itoa j @ rewrite_spec cs (j + 1) else c # rewrite_spec cs j)"

text \<open>
  The bytes of \<open>buf\<close> the loop visits (the first byte of every code point), and what the
  loop makes of them: the i-th \<open>?\<close> becomes \<open>$i\<close>, every other visited byte \<open>c\<close> becomes
  \<open>string(c)\<close>.
\<close>

function rune_starts :: "string \<Rightarrow> string" where
  "rune_starts [] = []"
| "rune_starts (c # cs) = c # rune_starts (drop (rune_len (c # cs)) (c # cs))"
  by pat_completeness auto
termination
proof (relation "measure length")
  show "wf (measure length)" by simp
next
  fix c :: char and cs :: string
  have "0 < rune_len (c # cs)" by (rule rune_len_pos)
  then show "(drop (rune_len (c # cs)) (c # cs), c # cs) \<in> measure length" by simp
qed

fun rewrite_visited :: "string \<Rightarrow> int \<Rightarrow> string" where
  "rewrite_visited [] j = []"
| "rewrite_visited (c # cs) j =
     (if c = CHR ''?'' then ''$'' @ Itoa j @ rewrite_visited cs (j + 1)
      else string_of_byte c @ rewrite_visited cs j)"

section \<open>Error translation\<close>

definition sqlite_Err :: "error option \<Rightarrow> error option" where
  "sqlite_Err err =
     (case err of
        None \<Rightarrow> err
      | Some e \<Rightarrow> if e = errTooManyOpenFiles then Some ErrTooManyClients else err)"

definition postgresql_Err :: "(error \<Rightarrow> string) \<Rightarrow> error option \<Rightarrow> error option" where
  "postgresql_Err txt err =
     (case err of
        None \<Rightarrow> err
      | Some e \<Rightarrow>
          (let s = ErrorText txt e in
           if Contains s ''too many clients'' \<or> Contains s ''remaining connection slots are reserved''
           then Some ErrTooManyClients
           else err))"

section \<open>Connection lifecycle\<close>

text \<open>
  A \<open>*sql.DB\<close> or \<open>*sql.Tx\<close> is a handle, a \<open>*database\<close> is an address. The process
  state holds the package variable \<open>fileOpenCount\<close> of the sqlite adapter, the
  \<open>database\<close> structs by address, the next address \<open>&database{}\<close> allocates, and two
  counters that only record how often the driver was called (\<open>sql.Open\<close> and \<open>Begin\<close>).
\<close>

type_synonym handle = nat
type_synonym addr = nat

text \<open>
  Modelled from the spec: the runtime \<open>sqladapter.BaseDatabase\<close> is outside the two
  files. It owns the connection descriptor (\<open>nil\<close> is \<^term>\<open>None\<close>, otherwise the
  text \<open>String()\<close> gives), the live connection handle (nil until opened) and, inside a
  transaction, the transactional handle.
\<close>

record BaseDatabase =
  connURL :: "string option"
  sess :: "handle option"
  tx :: "handle option"

record process =
  fileOpenCount :: int
  heap :: "addr \<Rightarrow> BaseDatabase"
  next_addr :: addr
  opens :: nat
  begins :: nat

text \<open>
  The database driver and the retry policy are outside the two files: \<open>sql_Open env k\<close>
  and \<open>sql_Begin env k\<close> are the outcomes of the k-th call of \<open>sql.Open\<close> and of \<open>Begin\<close> in
  the process (an error text or a new handle), \<open>sql_Close env h\<close> the outcome of closing
  \<open>h\<close>, and \<open>attempts env\<close> the number of attempts the retry policy of
  \<open>WaitForConnection\<close> allows.
\<close>

record env =
  sql_Open :: "nat \<Rightarrow> string + handle"
  sql_Begin :: "nat \<Rightarrow> string + handle"
  sql_Close :: "handle \<Rightarrow> string option"
  attempts :: nat

definition maxOpenFiles :: int where
  "maxOpenFiles = 100"

text \<open>\<open>atomic.AddInt32\<close>: the sum, wrapped to 32 bits, signed.\<close>

definition AddInt32 :: "int \<Rightarrow> int \<Rightarrow> int" where
  "AddInt32 x delta = (x + delta + 2 ^ 31) mod 2 ^ 32 - 2 ^ 31"

text \<open>
  Modelled from the spec: \<open>sqladapter.NewDatabase\<close>, \<open>BaseDatabase.Clone\<close>, \<open>Bind\<close>,
  \<open>BindTx\<close>, \<open>BaseDatabase.Close\<close> and \<open>WaitForConnection\<close> are outside the two files.
  A new runtime holds the descriptor and no handle; a clone shares the descriptor and
  has no handle of its own yet; \<open>Bind\<close> and \<open>BindTx\<close> install a handle; \<open>Close\<close> releases
  the live handle and reports what the driver reports. \<open>WaitForConnection\<close> calls
  \<open>connectFn\<close>, calls it again while the dialect's \<open>Err\<close> classifies the error as
  \<open>ErrTooManyClients\<close> and the policy allows another attempt, hands any other error up
  at once, and gives up when the policy is exhausted. A panic unwinds through it.
\<close>

definition NewDatabase :: "string option \<Rightarrow> BaseDatabase" where
  "NewDatabase url = \<lparr>connURL = url, sess = None, tx = None\<rparr>"


definition Bind :: "addr \<Rightarrow> handle option \<Rightarrow> process \<Rightarrow> error option \<times> process" where
  "Bind d s p = (None, p\<lparr>heap := (heap p)(d := (heap p d)\<lparr>sess := s\<rparr>)\<rparr>)"


definition BaseDatabase_Close :: "env \<Rightarrow> addr \<Rightarrow> process \<Rightarrow> error option \<times> process" where
  "BaseDatabase_Close e d p =
     (case sess (heap p d) of
        None \<Rightarrow> (None, p)
      | Some h \<Rightarrow>
          (map_option DriverError (sql_Close e h),
           p\<lparr>heap := (heap p)(d := (heap p d)\<lparr>sess := None, tx := None\<rparr>)\<rparr>))"

fun WaitForConnection ::
  "nat \<Rightarrow> (error option \<Rightarrow> error option) \<Rightarrow> ('s \<Rightarrow> error option \<times> 's) \<Rightarrow> 's \<Rightarrow> error option \<times> 's" where
  "WaitForConnection 0 Err connectFn s = (Some ErrGivingUpTryingToConnect, s)"
| "WaitForConnection (Suc n) Err connectFn s =
     (case connectFn s of
        (None, s') \<Rightarrow> (None, s')
      | (Some err, s') \<Rightarrow>
          if err \<noteq> PanicNilPointer \<and> Err (Some err) = Some ErrTooManyClients
          then WaitForConnection n Err connectFn s'
          else (Some err, s'))"

subsection \<open>The sqlite adapter\<close>

text \<open>
  \<open>openFn\<close> of \<open>open()\<close>: the second component of the state is the local variable \<open>sess\<close>
  the closure writes. \<open>d.ConnectionURL().String()\<close> is evaluated before \<open>sql.Open\<close> is
  called and panics on a nil descriptor.
\<close>

definition sqlite_openFn ::
  "env \<Rightarrow> addr \<Rightarrow> process \<times> handle option \<Rightarrow> error option \<times> (process \<times> handle option)" where
  "sqlite_openFn e d = (\<lambda>(p, s).
     (let openFiles = fileOpenCount p in
      if openFiles < maxOpenFiles then
        (case connURL (heap p d) of
           None \<Rightarrow> (Some PanicNilPointer, (p, s))
         | Some url \<Rightarrow>
             (case sql_Open e (opens p) of
                Inl msg \<Rightarrow> (Some (DriverError msg), (p\<lparr>opens := opens p + 1\<rparr>, None))
              | Inr h \<Rightarrow>
                  (None,
                   (p\<lparr>opens := opens p + 1, fileOpenCount := AddInt32 (fileOpenCount p) 1\<rparr>,
                    Some h))))
      else (Some errTooManyOpenFiles, (p, s))))"

definition sqlite_open :: "env \<Rightarrow> addr \<Rightarrow> process \<Rightarrow> error option \<times> process" where
  "sqlite_open e d p =
     (case WaitForConnection (attempts e) sqlite_Err (sqlite_openFn e d) (p, None) of
        (Some err, (p', s)) \<Rightarrow> (Some err, p')
      | (None, (p', s)) \<Rightarrow> Bind d s p')"

definition sqlite_Open :: "env \<Rightarrow> addr \<Rightarrow> string option \<Rightarrow> process \<Rightarrow> error option \<times> process" where
  "sqlite_Open e d url p = sqlite_open e d (p\<lparr>heap := (heap p)(d := NewDatabase url)\<rparr>)"

definition sqlite_Close :: "env \<Rightarrow> addr \<Rightarrow> process \<Rightarrow> error option \<times> process" where
  "sqlite_Close e d p =
     (if sess (heap p d) \<noteq> None then
        (let p1 = p\<lparr>fileOpenCount := AddInt32 (fileOpenCount p) (- 1)\<rparr> in
         if fileOpenCount p1 < 0 then (Some errCloseWithoutOpen, p1)
         else BaseDatabase_Close e d p1)
      else (None, p))"





subsection \<open>The postgresql adapter\<close>

definition postgresql_connFn ::
  "env \<Rightarrow> addr \<Rightarrow> process \<times> handle option \<Rightarrow> error option \<times> (process \<times> handle option)" where
  "postgresql_connFn e d = (\<lambda>(p, s).
     (case connURL (heap p d) of
        None \<Rightarrow> (Some PanicNilPointer, (p, s))
      | Some url \<Rightarrow>
          (case sql_Open e (opens p) of
             Inl msg \<Rightarrow> (Some (DriverError msg), (p\<lparr>opens := opens p + 1\<rparr>, None))
           | Inr h \<Rightarrow> (None, (p\<lparr>opens := opens p + 1\<rparr>, Some h)))))"

definition postgresql_open ::
  "env \<Rightarrow> (error \<Rightarrow> string) \<Rightarrow> addr \<Rightarrow> process \<Rightarrow> error option \<times> process" where
  "postgresql_open e txt d p =
     (case WaitForConnection (attempts e) (postgresql_Err txt) (postgresql_connFn e d) (p, None) of
        (Some err, (p', s)) \<Rightarrow> (Some err, p')
      | (None, (p', s)) \<Rightarrow> Bind d s p')"

definition postgresql_Open ::
  "env \<Rightarrow> (error \<Rightarrow> string) \<Rightarrow> addr \<Rightarrow> string option \<Rightarrow> process \<Rightarrow> error option \<times> process" where
  "postgresql_Open e txt d url p =
     (if url = None then (Some ErrMissingConnURL, p)
      else postgresql_open e txt d (p\<lparr>heap := (heap p)(d := NewDatabase url)\<rparr>))"



subsection \<open>Sequences of calls\<close>

text \<open>
  A process that has opened nothing yet, and the calls a program makes on sqlite
  adapters, in sequence; \<open>run\<close> gives the error and the state after each call.
\<close>

definition init :: process where
  "init = \<lparr>fileOpenCount = 0, heap = (\<lambda>a. NewDatabase None), next_addr = 0, opens = 0, begins = 0\<rparr>"

datatype event = Open addr "string option" | Close addr | Clone addr | Transaction addr



subsection \<open>The guard counter and the live sessions\<close>



text \<open>
  Concrete inputs: a driver that always succeeds, with two attempts allowed; the state
  after opening adapter 0 on \<open>test.db\<close> (also with address 0 allocated), and after
  closing it again; a state in which adapter 0 holds a session although the counter
  is 0; and a state at the cap.
\<close>

definition env0 :: env where
  "env0 = \<lparr>sql_Open = (\<lambda>k. Inr k), sql_Begin = (\<lambda>k. Inr k), sql_Close = (\<lambda>h. None),
            attempts = Suc (Suc 0)\<rparr>"





definition full :: process where
  "full = \<lparr>fileOpenCount = 100,
           heap = (\<lambda>a. \<lparr>connURL = Some ''test.db'', sess = Some a, tx = None\<rparr>),
           next_addr = 100, opens = 100, begins = 0\<rparr>"

section \<open>Catalog queries\<close>

text \<open>
  The query builder and its iterator are outside the two files. An iterator is modelled
  by what the adapters observe of it: \<open>Next()\<close> is true while a row is left, \<open>Scan\<close> of
  that row gives its value or fails, and \<open>Err()\<close> is the error of the query. After a
  query that failed no row is left: that is the state in which the postgresql
  \<open>PopulateSchema\<close> returns \<open>iter.Err()\<close>.
\<close>

record iterator =
  rows :: "(error + string) list"
  iter_Err :: "error option"

text \<open>
  The outcome of running a statement on the backend, as the iterator shows it: the
  statement failed with an error text, or it selected the given values.
\<close>

definition Iterator :: "string + string list \<Rightarrow> iterator" where
  "Iterator outcome =
     (case outcome of
        Inl msg \<Rightarrow> \<lparr>rows = [], iter_Err = Some (DriverError msg)\<rparr>
      | Inr vs \<Rightarrow> \<lparr>rows = map Inr vs, iter_Err = None\<rparr>)"

text \<open>
  The loop \<open>for iter.Next() { Scan; if err != nil { return nil, err }; append }\<close> of
  \<open>Collections\<close> and of the postgresql \<open>TablePrimaryKey\<close>.
\<close>

fun scan_all :: "(error + string) list \<Rightarrow> string list \<Rightarrow> error + string list" where
  "scan_all [] acc = Inr acc"
| "scan_all (Inl err # rs) acc = Inl err"
| "scan_all (Inr v # rs) acc = scan_all rs (acc @ [v])"

text \<open>Both adapters: \<open>Collections\<close> and \<open>TableExists\<close> on the iterator of their query.\<close>

definition Collections :: "iterator \<Rightarrow> error + string list" where
  "Collections iter = scan_all (rows iter) []"

definition TableExists :: "iterator \<Rightarrow> error option" where
  "TableExists iter =
     (case rows iter of
        [] \<Rightarrow> Some ErrCollectionDoesNotExist
      | r # _ \<Rightarrow> (case r of Inl err \<Rightarrow> Some err | Inr name \<Rightarrow> None))"

text \<open>
  The postgresql \<open>PopulateSchema\<close>, for the error it returns: the error of \<open>Scan\<close> when a
  row is there, \<open>iter.Err()\<close> when none is.
\<close>

definition postgresql_PopulateSchema :: "iterator \<Rightarrow> error option" where
  "postgresql_PopulateSchema iter =
     (case rows iter of
        [] \<Rightarrow> iter_Err iter
      | r # _ \<Rightarrow> (case r of Inl err \<Rightarrow> Some err | Inr name \<Rightarrow> None))"

text \<open>
  The rows of the two catalogs the statements read, with the columns they name:
  \<open>sqlite_master (type, tbl_name)\<close> and
  \<open>information_schema.tables (table_catalog, table_schema, table_name)\<close>. What the
  statements select is the meaning of their SQL text:
  \<open>SELECT tbl_name FROM sqlite_master WHERE type = 'table'\<close> (and \<open>AND tbl_name = ?\<close>),
  \<open>SELECT table_name FROM information_schema.tables WHERE table_schema = 'public'\<close>, and
  \<open>... WHERE table_catalog = ? AND table_name = ?\<close>.
\<close>

record sqlite_master =
  sm_type :: string
  sm_tbl_name :: string

record information_schema_tables =
  table_catalog :: string
  table_schema :: string
  table_name :: string

definition sqlite_Collections :: "string + sqlite_master list \<Rightarrow> error + string list" where
  "sqlite_Collections backend =
     Collections (Iterator (map_sum id
       (\<lambda>catalog. map sm_tbl_name (filter (\<lambda>r. sm_type r = ''table'') catalog)) backend))"

definition postgresql_Collections ::
  "string + information_schema_tables list \<Rightarrow> error + string list" where
  "postgresql_Collections backend =
     Collections (Iterator (map_sum id
       (\<lambda>catalog. map table_name (filter (\<lambda>r. table_schema r = ''public'') catalog)) backend))"

definition sqlite_TableExists :: "string + sqlite_master list \<Rightarrow> string \<Rightarrow> error option" where
  "sqlite_TableExists backend name =
     TableExists (Iterator (map_sum id
       (\<lambda>catalog. map sm_tbl_name
          (filter (\<lambda>r. sm_type r = ''table'' \<and> sm_tbl_name r = name) catalog)) backend))"

text \<open>\<open>schemaName\<close> is \<open>d.Schema().Name()\<close>, the database name \<open>PopulateSchema\<close> recorded.\<close>

definition postgresql_TableExists ::
  "string + information_schema_tables list \<Rightarrow> string \<Rightarrow> string \<Rightarrow> error option" where
  "postgresql_TableExists backend schemaName name =
     TableExists (Iterator (map_sum id
       (\<lambda>catalog. map table_name
          (filter (\<lambda>r. table_catalog r = schemaName \<and> table_name r = name) catalog)) backend))"

text \<open>
  SQLite reserves the table names that begin with \<open>sqlite_\<close> for its internal tables
  (\<open>sqlite_sequence\<close>, \<open>sqlite_stat1\<close>, ...), which \<open>sqlite_master\<close> lists with type
  \<open>table\<close>.
\<close>

definition sqlite_internal :: "string \<Rightarrow> bool" where
  "sqlite_internal name = HasPrefix name ''sqlite_''"

section \<open>Primary keys\<close>














section \<open>Properties of the placeholder rewriting\<close>

lemma rune_len_ascii: "(of_char c :: nat) < 128 \<Longrightarrow> rune_len (c # cs) = 1"
  by (simp add: rune_len_def)

lemma string_of_byte_ascii: "(of_char c :: nat) < 128 \<Longrightarrow> string_of_byte c = [c]"
  by (simp add: string_of_byte_def)

lemma replace_loop_ascii:
  "\<forall>c \<in> set buf. (of_char c :: nat) < 128 \<Longrightarrow> replace_loop buf j q = q @ rewrite_spec buf j"
proof (induction buf arbitrary: j q)
  case Nil
  then show ?case by simp
next
  case (Cons c cs)
  then show ?case by (simp add: rune_len_ascii string_of_byte_ascii)
qed

text \<open>
  On a compiled text of ASCII bytes only, the postgresql adapter rewrites the i-th \<open>?\<close>
  to \<open>$i\<close>, counting from 1, and keeps every other byte.
\<close>

lemma placeholders_ascii:
  "\<forall>c \<in> set buf. (of_char c :: nat) < 128 \<Longrightarrow>
     postgresql_CompileAndReplacePlaceholders buf = rewrite_spec buf 1"
  using replace_loop_ascii [of buf 1 "[]"]
  by (simp add: postgresql_CompileAndReplacePlaceholders_def)

lemma replace_loop_visited:
  "replace_loop buf j q = q @ rewrite_visited (rune_starts buf) j"
  by (induction buf j q rule: replace_loop.induct) simp_all

lemma rune_len_shape:
  "rune_len (c # cs) = 1
   \<or> (\<exists>c1 r. cs = c1 # r \<and> (128 :: nat) \<le> of_char c1 \<and> rune_len (c # cs) = 2)
   \<or> (\<exists>c1 c2 r. cs = c1 # c2 # r \<and> (128 :: nat) \<le> of_char c1 \<and> (128 :: nat) \<le> of_char c2
         \<and> rune_len (c # cs) = 3)
   \<or> (\<exists>c1 c2 c3 r. cs = c1 # c2 # c3 # r \<and> (128 :: nat) \<le> of_char c1
         \<and> (128 :: nat) \<le> of_char c2 \<and> (128 :: nat) \<le> of_char c3 \<and> rune_len (c # cs) = 4)"
proof (cases cs)
  case Nil
  then show ?thesis by (simp add: rune_len_def Let_def)
next
  case (Cons c1 r)
  note s1 = Cons
  show ?thesis
  proof (cases r)
    case Nil
    then show ?thesis using s1 by (simp add: rune_len_def in_range_def Let_def)
  next
    case (Cons c2 r2)
    note s2 = Cons
    show ?thesis
    proof (cases r2)
      case Nil
      then show ?thesis using s1 s2 by (simp add: rune_len_def in_range_def Let_def)
    next
      case (Cons c3 r3)
      then show ?thesis using s1 s2 by (simp add: rune_len_def in_range_def Let_def)
    qed
  qed
qed

lemma skipped_high:
  assumes "c' \<in> set (take (rune_len (c # cs) - 1) cs)"
  shows "(128 :: nat) \<le> of_char c'"
  using rune_len_shape [of c cs] assms by (auto simp: numeral_2_eq_2 numeral_3_eq_3)

lemma drop_rune: "drop (rune_len (c # cs)) (c # cs) = drop (rune_len (c # cs) - 1) cs"
  using rune_len_pos [of c cs] by (cases "rune_len (c # cs)") simp_all

lemma placeholders_visited:
  "filter (\<lambda>c. c = CHR ''?'') (rune_starts buf) = filter (\<lambda>c. c = CHR ''?'') buf"
proof (induction buf rule: rune_starts.induct)
  case 1
  then show ?case by simp
next
  case (2 c cs)
  let ?n = "rune_len (c # cs) - 1"
  have "\<forall>c' \<in> set (take ?n cs). c' \<noteq> CHR ''?''"
  proof
    fix c'
    assume "c' \<in> set (take ?n cs)"
    then have "(128 :: nat) \<le> of_char c'" by (rule skipped_high)
    then show "c' \<noteq> CHR ''?''" by auto
  qed
  then have "filter (\<lambda>c. c = CHR ''?'') (take ?n cs) = []" by (simp add: filter_empty_conv)
  then have "filter (\<lambda>c. c = CHR ''?'') cs = filter (\<lambda>c. c = CHR ''?'') (drop ?n cs)"
    using filter_append [of "\<lambda>c. c = CHR ''?''" "take ?n cs" "drop ?n cs"] by simp
  moreover have "filter (\<lambda>c. c = CHR ''?'') (rune_starts (drop ?n cs))
      = filter (\<lambda>c. c = CHR ''?'') (drop ?n cs)"
    using "2.IH" by (simp only: drop_rune)
  moreover have "rune_starts (c # cs) = c # rune_starts (drop ?n cs)"
    by (simp only: rune_starts.simps drop_rune)
  ultimately show ?case by (simp only: filter.simps)
qed


text \<open>
  On every compiled text the loop visits each \<open>?\<close> of \<open>buf\<close>, in order, and rewrites the
  i-th to \<open>$i\<close>, counting from 1: the bytes it skips are continuation bytes.
\<close>

lemma placeholders_numbered:
  "postgresql_CompileAndReplacePlaceholders buf = rewrite_visited (rune_starts buf) 1
   \<and> filter (\<lambda>c. c = CHR ''?'') (rune_starts buf) = filter (\<lambda>c. c = CHR ''?'') buf"
  by (simp add: postgresql_CompileAndReplacePlaceholders_def replace_loop_visited
      placeholders_visited)

text \<open>
  C4. The postgresql adapter does not leave every other character unchanged: the loop
  ranges over the code points of \<open>buf\<close> and copies \<open>string(buf[i])\<close>, the first byte of
  each, converted as a code point of its own. On the compiled text
  \<open>SELECT a..o FROM t WHERE id = ?\<close>, where \<open>..\<close> is the letter n with tilde (the bytes
  C3 B1), the result holds the bytes C3 83 in its place, where the rewriting of the
  specification keeps C3 B1. The placeholder itself is rewritten to \<open>$1\<close>. The sqlite
  adapter returns the compiled text as it is.
\<close>

theorem placeholders_non_ascii:
  "postgresql_CompileAndReplacePlaceholders
       (''SELECT a'' @ [CHR 0xC3, CHR 0xB1] @ ''o FROM t WHERE id = ?'')
     = ''SELECT a'' @ [CHR 0xC3, CHR 0x83] @ ''o FROM t WHERE id = $1''
   \<and> rewrite_spec (''SELECT a'' @ [CHR 0xC3, CHR 0xB1] @ ''o FROM t WHERE id = ?'') 1
     = ''SELECT a'' @ [CHR 0xC3, CHR 0xB1] @ ''o FROM t WHERE id = $1''
   \<and> sqlite_CompileAndReplacePlaceholders
       (''SELECT a'' @ [CHR 0xC3, CHR 0xB1] @ ''o FROM t WHERE id = ?'')
     = ''SELECT a'' @ [CHR 0xC3, CHR 0xB1] @ ''o FROM t WHERE id = ?''"
  by code_simp

section \<open>Properties of the error translation\<close>

lemma HasPrefix_iff: "HasPrefix s p \<longleftrightarrow> (\<exists>post. s = p @ post)"
  by (induction s p rule: HasPrefix.induct) auto

lemma Contains_iff: "Contains s sub \<longleftrightarrow> (\<exists>pre post. s = pre @ sub @ post)"
proof (induction s)
  case Nil
  then show ?case by auto
next
  case (Cons c s)
  show ?case
  proof
    assume "Contains (c # s) sub"
    then consider "HasPrefix (c # s) sub" | "Contains s sub" by auto
    then show "\<exists>pre post. c # s = pre @ sub @ post"
    proof cases
      case 1
      then obtain post where "c # s = sub @ post" by (auto simp: HasPrefix_iff)
      then have "c # s = [] @ sub @ post" by simp
      then show ?thesis by blast
    next
      case 2
      then obtain pre post where "s = pre @ sub @ post" using Cons.IH by auto
      then have "c # s = (c # pre) @ sub @ post" by simp
      then show ?thesis by blast
    qed
  next
    assume "\<exists>pre post. c # s = pre @ sub @ post"
    then obtain pre post where e: "c # s = pre @ sub @ post" by auto
    show "Contains (c # s) sub"
    proof (cases pre)
      case Nil
      then have "HasPrefix (c # s) sub" using e by (auto simp: HasPrefix_iff)
      then show ?thesis by simp
    next
      case (Cons a pre')
      then have "s = pre' @ sub @ post" using e by simp
      then have "Contains s sub" using Cons.IH by blast
      then show ?thesis by simp
    qed
  qed
qed

lemma occurs_Contains: "occurs sub s = Contains s sub"
  by (simp add: occurs_def Contains_iff)

text \<open>
  C6. \<open>Err\<close> maps the connection-exhaustion conditions to \<open>db.ErrTooManyClients\<close> and
  returns every other error, and nil, unchanged: the sqlite adapter maps the value
  \<open>errTooManyOpenFiles\<close>, the postgresql adapter every error whose text contains
  \<open>too many clients\<close> or \<open>remaining connection slots are reserved\<close>.
\<close>

theorem Err_translation:
  "sqlite_Err None = None
   \<and> sqlite_Err (Some errTooManyOpenFiles) = Some ErrTooManyClients
   \<and> (\<forall>e. e \<noteq> errTooManyOpenFiles \<longrightarrow> sqlite_Err (Some e) = Some e)
   \<and> postgresql_Err txt None = None
   \<and> (\<forall>e. occurs ''too many clients'' (ErrorText txt e)
          \<or> occurs ''remaining connection slots are reserved'' (ErrorText txt e)
        \<longrightarrow> postgresql_Err txt (Some e) = Some ErrTooManyClients)
   \<and> (\<forall>e. \<not> occurs ''too many clients'' (ErrorText txt e)
          \<and> \<not> occurs ''remaining connection slots are reserved'' (ErrorText txt e)
        \<longrightarrow> postgresql_Err txt (Some e) = Some e)"
  by (simp add: sqlite_Err_def postgresql_Err_def occurs_Contains Let_def)

theorem Err_translation_witness:
  "sqlite_Err (Some (DriverError ''disk I/O error'')) = Some (DriverError ''disk I/O error'')
   \<and> postgresql_Err (\<lambda>e. []) (Some (DriverError ''pq: sorry, too many clients already''))
       = Some ErrTooManyClients
   \<and> postgresql_Err (\<lambda>e. [])
         (Some (DriverError ''pq: remaining connection slots are reserved for superuser''))
       = Some ErrTooManyClients
   \<and> postgresql_Err (\<lambda>e. []) (Some (DriverError ''pq: syntax error''))
       = Some (DriverError ''pq: syntax error'')
   \<and> postgresql_Err (\<lambda>e. []) (Some ErrCollectionDoesNotExist) = Some ErrCollectionDoesNotExist"
proof -
  note t = Err_translation [of "\<lambda>e. []"]
  have a: "occurs ''too many clients''
      (ErrorText (\<lambda>e. []) (DriverError ''pq: sorry, too many clients already''))"
    by (simp add: occurs_Contains)
  have b: "occurs ''remaining connection slots are reserved''
      (ErrorText (\<lambda>e. []) (DriverError ''pq: remaining connection slots are reserved for superuser''))"
    by (simp add: occurs_Contains)
  have c: "\<not> occurs ''too many clients'' (ErrorText (\<lambda>e. []) (DriverError ''pq: syntax error''))
    \<and> \<not> occurs ''remaining connection slots are reserved''
          (ErrorText (\<lambda>e. []) (DriverError ''pq: syntax error''))"
    by (simp add: occurs_Contains)
  have d: "\<not> occurs ''too many clients'' (ErrorText (\<lambda>e. []) ErrCollectionDoesNotExist)
    \<and> \<not> occurs ''remaining connection slots are reserved''
          (ErrorText (\<lambda>e. []) ErrCollectionDoesNotExist)"
    by (simp add: occurs_Contains)
  show ?thesis using t a b c d by blast
qed

section \<open>Properties of the connection guard\<close>



lemma sqlite_Err_simps:
  "sqlite_Err None = None"
  "sqlite_Err (Some errTooManyOpenFiles) = Some ErrTooManyClients"
  "e \<noteq> errTooManyOpenFiles \<Longrightarrow> sqlite_Err (Some e) = Some e"
  by (simp_all add: sqlite_Err_def)

























text \<open>
  C2. When the counter has reached \<open>maxOpenFiles\<close>, \<open>openFn\<close> returns
  \<open>errTooManyOpenFiles\<close> and leaves the state as it is: \<open>sql.Open\<close> is not called. \<open>openFn\<close>
  returns nil exactly when the counter is below the cap and \<open>sql.Open\<close> succeeds, and
  only then the counter is incremented. When the counter is at the cap and an adapter
  that holds a session is closed, the counter is one below the cap and the next
  \<open>openFn\<close> calls \<open>sql.Open\<close>.
\<close>

theorem admission_control:
  "(maxOpenFiles \<le> fileOpenCount p \<longrightarrow>
      sqlite_openFn e d (p, s) = (Some errTooManyOpenFiles, (p, s)))
   \<and> (fst (sqlite_openFn e d (p, s)) = None \<longleftrightarrow>
        fileOpenCount p < maxOpenFiles \<and> connURL (heap p d) \<noteq> None
        \<and> (\<exists>h. sql_Open e (opens p) = Inr h))
   \<and> fileOpenCount (fst (snd (sqlite_openFn e d (p, s)))) =
        (if fst (sqlite_openFn e d (p, s)) = None then AddInt32 (fileOpenCount p) 1
         else fileOpenCount p)
   \<and> (fileOpenCount p = maxOpenFiles \<and> sess (heap p a) \<noteq> None \<and> connURL (heap p d) \<noteq> None \<longrightarrow>
        fileOpenCount (snd (sqlite_Close e a p)) = maxOpenFiles - 1
        \<and> opens (fst (snd (sqlite_openFn e d (snd (sqlite_Close e a p), s))))
            = opens (snd (sqlite_Close e a p)) + 1)"
proof (intro conjI)
  show "maxOpenFiles \<le> fileOpenCount p \<longrightarrow>
      sqlite_openFn e d (p, s) = (Some errTooManyOpenFiles, (p, s))"
    by (simp add: sqlite_openFn_def)
  show "fst (sqlite_openFn e d (p, s)) = None \<longleftrightarrow>
        fileOpenCount p < maxOpenFiles \<and> connURL (heap p d) \<noteq> None
        \<and> (\<exists>h. sql_Open e (opens p) = Inr h)"
    by (auto simp: sqlite_openFn_def split: option.splits sum.splits)
  show "fileOpenCount (fst (snd (sqlite_openFn e d (p, s)))) =
        (if fst (sqlite_openFn e d (p, s)) = None then AddInt32 (fileOpenCount p) 1
         else fileOpenCount p)"
    by (auto simp: sqlite_openFn_def split: option.splits sum.splits)
  show "fileOpenCount p = maxOpenFiles \<and> sess (heap p a) \<noteq> None \<and> connURL (heap p d) \<noteq> None \<longrightarrow>
        fileOpenCount (snd (sqlite_Close e a p)) = maxOpenFiles - 1
        \<and> opens (fst (snd (sqlite_openFn e d (snd (sqlite_Close e a p), s))))
            = opens (snd (sqlite_Close e a p)) + 1"
  proof
    assume h: "fileOpenCount p = maxOpenFiles \<and> sess (heap p a) \<noteq> None \<and> connURL (heap p d) \<noteq> None"
    define p1 where "p1 = snd (sqlite_Close e a p)"
    have c: "AddInt32 maxOpenFiles (- 1) = 99" by (simp add: AddInt32_def maxOpenFiles_def)
    have 1: "fileOpenCount p1 = 99" and 2: "connURL (heap p1 d) \<noteq> None"
      using h c by (auto simp: p1_def sqlite_Close_def BaseDatabase_Close_def Let_def split: option.splits)
    have "opens (fst (snd (sqlite_openFn e d (p1, s)))) = opens p1 + 1"
      using 1 2 by (auto simp: sqlite_openFn_def maxOpenFiles_def split: option.splits sum.splits)
    then show "fileOpenCount (snd (sqlite_Close e a p)) = maxOpenFiles - 1
        \<and> opens (fst (snd (sqlite_openFn e d (snd (sqlite_Close e a p), s))))
            = opens (snd (sqlite_Close e a p)) + 1"
      using 1 by (simp add: p1_def maxOpenFiles_def)
  qed
qed

lemma Close_full: "sqlite_Close env0 0 full = (None, full\<lparr>fileOpenCount := 99,
    heap := (heap full)(0 := \<lparr>connURL = Some ''test.db'', sess = None, tx = None\<rparr>)\<rparr>)"
  by (simp add: full_def sqlite_Close_def BaseDatabase_Close_def env0_def AddInt32_def Let_def)

theorem admission_control_witness:
  "sqlite_openFn env0 1 (full, None) = (Some errTooManyOpenFiles, (full, None))
   \<and> fileOpenCount (fst (snd (sqlite_openFn env0 1 (full, None)))) = 100
   \<and> fileOpenCount (snd (sqlite_Close env0 0 full)) = 99
   \<and> opens (fst (snd (sqlite_openFn env0 1 (snd (sqlite_Close env0 0 full), None)))) = 101
   \<and> fst (sqlite_openFn env0 1 (snd (sqlite_Close env0 0 full), None)) = None
   \<and> fileOpenCount (fst (snd (sqlite_openFn env0 1 (snd (sqlite_Close env0 0 full), None)))) = 100"
proof -
  note a = admission_control [of full env0 1 None 0]
  note b = admission_control [of "snd (sqlite_Close env0 0 full)" env0 1 None 0]
  have f: "fileOpenCount full = maxOpenFiles" "sess (heap full 0) \<noteq> None"
    "connURL (heap full 1) \<noteq> None" "opens full = 100"
    by (simp_all add: full_def maxOpenFiles_def)
  have g: "fileOpenCount (snd (sqlite_Close env0 0 full)) < maxOpenFiles"
    "connURL (heap (snd (sqlite_Close env0 0 full)) 1) \<noteq> None"
    "opens (snd (sqlite_Close env0 0 full)) = 100"
    "sql_Open env0 100 = Inr 100"
    "AddInt32 99 1 = 100"
    unfolding Close_full by (simp_all add: full_def maxOpenFiles_def env0_def AddInt32_def)
  have m: "maxOpenFiles = 100" by (simp add: maxOpenFiles_def)
  from a f have a1: "sqlite_openFn env0 1 (full, None) = (Some errTooManyOpenFiles, (full, None))"
    by simp
  from a f have a2: "fileOpenCount (snd (sqlite_Close env0 0 full)) = 99"
    "opens (fst (snd (sqlite_openFn env0 1 (snd (sqlite_Close env0 0 full), None)))) = 101"
    using g by (simp_all add: m)
  from b g have b1: "fst (sqlite_openFn env0 1 (snd (sqlite_Close env0 0 full), None)) = None"
    by simp
  from b b1 a2 g have b2: "fileOpenCount (fst (snd (sqlite_openFn env0 1 (snd (sqlite_Close env0 0 full), None)))) = 100"
    by simp
  show ?thesis using a1 a2 b1 b2 f m by simp
qed

section \<open>The nil connection descriptor\<close>

lemma Wait_nil_descriptor:
  "connURL (heap p d) = None \<Longrightarrow>
   WaitForConnection n sqlite_Err (sqlite_openFn e d) (p, s) =
     ((if n = 0 \<or> maxOpenFiles \<le> fileOpenCount p then Some ErrGivingUpTryingToConnect
       else Some PanicNilPointer), (p, s))"
proof (induction n)
  case 0
  then show ?case by simp
next
  case (Suc n)
  show ?case
  proof (cases "fileOpenCount p < maxOpenFiles")
    case True
    then have "sqlite_openFn e d (p, s) = (Some PanicNilPointer, (p, s))"
      using Suc.prems by (simp add: sqlite_openFn_def)
    then show ?thesis using True by simp
  next
    case False
    then have "sqlite_openFn e d (p, s) = (Some errTooManyOpenFiles, (p, s))"
      by (simp add: sqlite_openFn_def)
    then show ?thesis using False Suc by (simp add: sqlite_Err_simps)
  qed
qed

lemma sqlite_Open_nil:
  "sqlite_Open e d None p =
     ((if attempts e = 0 \<or> maxOpenFiles \<le> fileOpenCount p then Some ErrGivingUpTryingToConnect
       else Some PanicNilPointer), p\<lparr>heap := (heap p)(d := NewDatabase None)\<rparr>)"
proof -
  have "connURL (heap (p\<lparr>heap := (heap p)(d := NewDatabase None)\<rparr>) d) = None"
    by (simp add: NewDatabase_def)
  from Wait_nil_descriptor [OF this, of "attempts e" e None]
  show ?thesis by (simp add: sqlite_Open_def sqlite_open_def)
qed

text \<open>
  C10. The postgresql \<open>Open\<close> answers a nil descriptor with \<open>db.ErrMissingConnURL\<close> and
  changes nothing, so no \<open>sql.Open\<close> is attempted. The sqlite \<open>Open\<close> has no such check:
  it builds the runtime on the nil descriptor and runs \<open>open()\<close>, never returns
  \<open>db.ErrMissingConnURL\<close>, and below the cap it reaches \<open>d.ConnectionURL().String()\<close>,
  which panics on the nil descriptor.
\<close>

theorem nil_descriptor:
  "postgresql_Open e txt d None p = (Some ErrMissingConnURL, p)
   \<and> sqlite_Open e d None p = sqlite_open e d (p\<lparr>heap := (heap p)(d := NewDatabase None)\<rparr>)
   \<and> fst (sqlite_Open e d None p) \<noteq> Some ErrMissingConnURL
   \<and> heap (snd (sqlite_Open e d None p)) d = NewDatabase None
   \<and> (0 < attempts e \<and> fileOpenCount p < maxOpenFiles \<longrightarrow>
        fst (sqlite_Open e d None p) = Some PanicNilPointer)"
proof (intro conjI)
  show "postgresql_Open e txt d None p = (Some ErrMissingConnURL, p)"
    by (simp add: postgresql_Open_def)
  show "sqlite_Open e d None p = sqlite_open e d (p\<lparr>heap := (heap p)(d := NewDatabase None)\<rparr>)"
    by (simp add: sqlite_Open_def)
  show "fst (sqlite_Open e d None p) \<noteq> Some ErrMissingConnURL"
    by (simp add: sqlite_Open_nil)
  show "heap (snd (sqlite_Open e d None p)) d = NewDatabase None"
    by (simp add: sqlite_Open_nil)
  show "0 < attempts e \<and> fileOpenCount p < maxOpenFiles \<longrightarrow>
        fst (sqlite_Open e d None p) = Some PanicNilPointer"
    by (simp add: sqlite_Open_nil)
qed

theorem nil_descriptor_witness:
  "postgresql_Open env0 (\<lambda>e. []) 0 None init = (Some ErrMissingConnURL, init)
   \<and> fst (sqlite_Open env0 0 None init) = Some PanicNilPointer
   \<and> heap (snd (sqlite_Open env0 0 None init)) 0 = NewDatabase None"
proof -
  note a = nil_descriptor [of env0 "\<lambda>e. []" 0 init]
  have "0 < attempts env0" "fileOpenCount init < maxOpenFiles"
    by (simp_all add: env0_def init_def maxOpenFiles_def)
  then show ?thesis using a by blast
qed

section \<open>Transactions work on a clone\<close>














section \<open>Properties of the primary-key discovery\<close>





lemma scan_all_Inr: "scan_all (map Inr names) acc = Inr (acc @ names)"
  by (induction names arbitrary: acc) auto









section \<open>Properties of the catalog queries\<close>

lemma scan_all_Inr_nil: "scan_all (map Inr names) [] = Inr names"
  using scan_all_Inr [of names "[]"] by simp

lemma Collections_Iterator: "Collections (Iterator (Inr vs)) = Inr vs"
  by (simp add: Collections_def Iterator_def scan_all_Inr_nil)

lemma Collections_rows:
  "sqlite_Collections (Inr catalog) = Inr (map sm_tbl_name (filter (\<lambda>r. sm_type r = ''table'') catalog))"
  "postgresql_Collections (Inr pcatalog)
     = Inr (map table_name (filter (\<lambda>r. table_schema r = ''public'') pcatalog))"
  by (simp_all add: sqlite_Collections_def postgresql_Collections_def Collections_Iterator)

text \<open>The postgresql adapter lists only tables of the schema \<open>public\<close>.\<close>

lemma postgresql_Collections_public:
  assumes "postgresql_Collections (Inr pcatalog) = Inr names" "name \<in> set names"
  shows "\<exists>r \<in> set pcatalog. table_name r = name \<and> table_schema r = ''public''"
  using assms by (auto simp: Collections_rows)

text \<open>
  C7. The sqlite \<open>Collections\<close> does not exclude the internal tables of SQLite: its
  statement keeps every row of \<open>sqlite_master\<close> whose type is \<open>table\<close>. In a database with
  a table \<open>users\<close> that has an \<open>AUTOINCREMENT\<close> key, \<open>sqlite_master\<close> also lists the internal
  table \<open>sqlite_sequence\<close> with type \<open>table\<close>, and \<open>Collections\<close> returns it.
\<close>

theorem Collections_internal_table:
  "sqlite_Collections (Inr [\<lparr>sm_type = ''table'', sm_tbl_name = ''users''\<rparr>,
                            \<lparr>sm_type = ''index'', sm_tbl_name = ''users''\<rparr>,
                            \<lparr>sm_type = ''table'', sm_tbl_name = ''sqlite_sequence''\<rparr>])
     = Inr [''users'', ''sqlite_sequence'']
   \<and> sqlite_internal ''sqlite_sequence''"
  by (simp add: Collections_rows sqlite_internal_def)

text \<open>
  When the query runs, \<open>TableExists\<close> returns nil exactly when a row of the catalog has
  the name (and type \<open>table\<close>, or the catalog of the adapter's database), compared as a
  whole, and \<open>db.ErrCollectionDoesNotExist\<close> otherwise.
\<close>

lemma TableExists_rows:
  "sqlite_TableExists (Inr catalog) name =
     (if \<exists>r \<in> set catalog. sm_type r = ''table'' \<and> sm_tbl_name r = name then None
      else Some ErrCollectionDoesNotExist)"
  "postgresql_TableExists (Inr pcatalog) schemaName name =
     (if \<exists>r \<in> set pcatalog. table_catalog r = schemaName \<and> table_name r = name then None
      else Some ErrCollectionDoesNotExist)"
proof -
  have a: "TableExists (Iterator (Inr vs)) = (if vs = [] then Some ErrCollectionDoesNotExist else None)"
    for vs
    by (cases vs) (simp_all add: TableExists_def Iterator_def)
  show "sqlite_TableExists (Inr catalog) name =
     (if \<exists>r \<in> set catalog. sm_type r = ''table'' \<and> sm_tbl_name r = name then None
      else Some ErrCollectionDoesNotExist)"
    by (auto simp: sqlite_TableExists_def a filter_empty_conv)
  show "postgresql_TableExists (Inr pcatalog) schemaName name =
     (if \<exists>r \<in> set pcatalog. table_catalog r = schemaName \<and> table_name r = name then None
      else Some ErrCollectionDoesNotExist)"
    by (auto simp: postgresql_TableExists_def a filter_empty_conv)
qed

text \<open>
  C8. \<open>TableExists\<close> does not keep the not-found condition apart from an I/O failure:
  when the query itself fails, the iterator has no row, and both adapters return
  \<open>db.ErrCollectionDoesNotExist\<close> without looking at \<open>iter.Err()\<close>. The postgresql
  \<open>PopulateSchema\<close> returns \<open>iter.Err()\<close> in the same state.
\<close>

theorem TableExists_failed_query:
  "sqlite_TableExists (Inl ''disk I/O error'') ''users'' = Some ErrCollectionDoesNotExist
   \<and> postgresql_TableExists (Inl ''connection reset by peer'') ''shop'' ''users''
       = Some ErrCollectionDoesNotExist
   \<and> postgresql_PopulateSchema (Iterator (Inl ''connection reset by peer''))
       = Some (DriverError ''connection reset by peer'')"
  by (simp add: sqlite_TableExists_def postgresql_TableExists_def TableExists_def
      postgresql_PopulateSchema_def Iterator_def)

end
